theory Spec2Isabelle
  imports Complex_Main "HOL-Library.Word" "HOL-Library.AList" "HOL-Library.Log_Nat"
begin

section \<open>Values of the host language\<close>

text \<open>
  A JavaScript string is a sequence of UTF-16 code units; \<open>.length\<close> and
  \<open>.substring\<close> count code units. String literals of the source are embedded
  with \<open>lit\<close>.
\<close>

type_synonym js_string = "16 word list"

definition lit :: "string \<Rightarrow> js_string" where
  "lit s = map of_char s"

text \<open>
  JSON values as they come out of a parsed response body. An object keeps its
  properties in insertion order, as JavaScript objects do.
\<close>

datatype json =
    JNull
  | JBool bool
  | JNum int
  | JStr js_string
  | JArr "json list"
  | JObj "(js_string \<times> json) list"

type_synonym json_object = "(js_string \<times> json) list"

text \<open>
  An error object as the source inspects it: \<open>error.response?.status\<close>,
  \<open>error.response?.data\<close> and \<open>error.message\<close>. An error made with
  \<open>new Error(msg)\<close>, and a \<open>TypeError\<close> of the runtime, has no response.
\<close>

record js_error =
  response :: "(nat \<times> json) option"
  message :: js_string

definition new_Error :: "js_string \<Rightarrow> js_error" where
  "new_Error msg = \<lparr>response = None, message = msg\<rparr>"

definition response_status :: "js_error \<Rightarrow> nat option" where
  "response_status e = map_option fst (response e)"

subsection \<open>Numbers\<close>

text \<open>
  A JavaScript number is an IEEE 754 double: a finite value, an infinity or
  \<open>NaN\<close>. The sign of zero is not kept: the zeros of this program are the
  literal \<open>0\<close> and \<open>parseInt\<close> of an unsigned decimal string, both \<open>+0\<close>.
\<close>

datatype js_number = Num real | PosInfinity | NegInfinity | NaN

definition pow2 :: "int \<Rightarrow> real" where
  "pow2 k = (if 0 \<le> k then 2 ^ nat k else 1 / 2 ^ nat (- k))"

text \<open>Rounding to the nearest integer, a tie to the even one.\<close>

definition round_half_even :: "real \<Rightarrow> int" where
  "round_half_even y =
     (let f = \<lfloor>y\<rfloor>; d = y - of_int f
      in if d < 1 / 2 then f else if 1 / 2 < d then f + 1 else if even f then f else f + 1)"

text \<open>The \<open>e\<close> with \<open>2^e \<le> x < 2^(e+1)\<close>, for \<open>x > 0\<close>.\<close>

definition binary_exponent :: "real \<Rightarrow> int" where
  "binary_exponent x =
     (if 1 \<le> x then int (floorlog 2 (nat \<lfloor>x\<rfloor>)) - 1
      else - int (floorlog 2 (nat (\<lceil>1 / x\<rceil> - 1))))"

text \<open>
  The double nearest to a real: 53 significant bits, exponents from \<open>-1022\<close>
  (below that the spacing stays \<open>2^-1074\<close>), ties to even, and an infinity from
  \<open>2^1024\<close> on.
\<close>

definition round_double :: "real \<Rightarrow> js_number" where
  "round_double x =
     (if x = 0 then Num 0
      else (let ulp = pow2 (max (binary_exponent \<bar>x\<bar>) (- 1022) - 52);
                r = of_int (round_half_even (\<bar>x\<bar> / ulp)) * ulp
            in if pow2 1024 \<le> r then (if 0 < x then PosInfinity else NegInfinity)
               else Num (if 0 < x then r else - r)))"

text \<open>The operator \<open>/\<close>.\<close>

fun js_divide :: "js_number \<Rightarrow> js_number \<Rightarrow> js_number" where
  "js_divide NaN _ = NaN"
| "js_divide _ NaN = NaN"
| "js_divide (Num a) (Num b) =
     (if b = 0 then (if a = 0 then NaN else if 0 < a then PosInfinity else NegInfinity)
      else round_double (a / b))"
| "js_divide (Num a) PosInfinity = Num 0"
| "js_divide (Num a) NegInfinity = Num 0"
| "js_divide PosInfinity (Num b) = (if 0 \<le> b then PosInfinity else NegInfinity)"
| "js_divide NegInfinity (Num b) = (if 0 \<le> b then NegInfinity else PosInfinity)"
| "js_divide _ _ = NaN"

section \<open>The platform and the host, as the automator sees them\<close>

text \<open>
  The statistics of a video. The platform sends each count as the decimal string
  of an unsigned integer and leaves a count out when it is hidden; \<open>Some n\<close> is
  the string of \<open>n\<close>, \<open>None\<close> the missing property. On such a string
  \<open>parseInt\<close> and the numeric coercion of a comparison both give \<open>n\<close> (exactly,
  for the counts below \<open>2^53\<close> that a double holds); on a missing property
  \<open>parseInt\<close> gives \<open>NaN\<close> and the comparison is false.
\<close>

record statistics =
  viewCount :: "nat option"
  likeCount :: "nat option"
  commentCount :: "nat option"

record video_item =
  item_statistics :: "statistics option"
  item_snippet :: "json_object option"

datatype token_response = TokenOk js_string int | TokenErr js_error

datatype get_response = GetOk "video_item list option" | GetErr js_error

datatype put_response = PutOk | PutErr js_error

text \<open>
  Every interaction with the outside is recorded as an event. The responses of
  the outside are given per position in that record: \<open>token_endpoint w n\<close> is
  what the token endpoint answers when the POST is the \<open>n\<close>-th interaction.
  The automator is deterministic given the earlier answers, so an answer that
  depends on the request is an answer that depends on \<open>n\<close>.
\<close>

datatype event =
    TokenPost
  | VideosGet js_string js_string
  | VideosPut js_string json_object "js_string option"
  | Sleep nat

record world =
  token_endpoint :: "nat \<Rightarrow> token_response"
  videos_get :: "nat \<Rightarrow> get_response"
  videos_put :: "nat \<Rightarrow> put_response"
  date_now :: "nat \<Rightarrow> nat"
  date_iso :: "nat \<Rightarrow> js_string"
  math_random :: "nat \<Rightarrow> real"
  toLocaleString :: "int \<Rightarrow> js_string"

section \<open>The automator\<close>

text \<open>
  The fields of \<open>VaultittechAutomator\<close> that the orchestration reads and writes
  (\<open>this.stats\<close> is flattened into the record), and the record of events.
  Console output is not part of the model.
\<close>

record automator =
  accessToken :: "js_string option"
  accessTokenExpiry :: "int option"
  updatesPerformed :: nat
  lastUpdate :: "js_string option"
  peakEngagement :: int
  trace :: "event list"

definition constructor :: automator where
  "constructor = \<lparr>accessToken = None, accessTokenExpiry = None, updatesPerformed = 0,
     lastUpdate = None, peakEngagement = 0, trace = []\<rparr>"

definition emit :: "event \<Rightarrow> automator \<Rightarrow> automator" where
  "emit ev s = s\<lparr>trace := trace s @ [ev]\<rparr>"

definition tick :: "automator \<Rightarrow> nat" where
  "tick s = length (trace s)"

subsection \<open>Token manager\<close>

text \<open>
  \<open>refreshAccessToken\<close>: the POST, then on success both fields are stored; on
  failure the error of the POST is thrown again as it is.
\<close>

definition refreshAccessToken :: "world \<Rightarrow> automator \<Rightarrow> automator \<times> (js_error + unit)" where
  "refreshAccessToken w s =
     (let s1 = emit TokenPost s in
      case token_endpoint w (tick s) of
        TokenOk access_token expires_in \<Rightarrow>
          (s1\<lparr>accessToken := Some access_token,
              accessTokenExpiry := Some (int (date_now w (tick s1)) + expires_in * 1000)\<rparr>,
           Inr ())
      | TokenErr e \<Rightarrow> (s1, Inl e))"

text \<open>
  The test of \<open>ensureValidAccessToken\<close>. \<open>!this.accessToken\<close> holds for
  \<open>null\<close> and for the empty string, \<open>!this.accessTokenExpiry\<close> for \<open>null\<close>
  and for \<open>0\<close>.
\<close>

definition falsy_string :: "js_string option \<Rightarrow> bool" where
  "falsy_string v = (case v of None \<Rightarrow> True | Some t \<Rightarrow> t = [])"

definition falsy_number :: "int option \<Rightarrow> bool" where
  "falsy_number v = (case v of None \<Rightarrow> True | Some n \<Rightarrow> n = 0)"

definition needs_refresh :: "world \<Rightarrow> automator \<Rightarrow> bool" where
  "needs_refresh w s =
     (let now = int (date_now w (tick s)) in
      falsy_string (accessToken s) \<or> falsy_number (accessTokenExpiry s) \<or>
      (case accessTokenExpiry s of None \<Rightarrow> False | Some expiry \<Rightarrow> expiry - now < 300000))"

definition ensureValidAccessToken :: "world \<Rightarrow> automator \<Rightarrow> automator \<times> (js_error + unit)" where
  "ensureValidAccessToken w s =
     (if needs_refresh w s then refreshAccessToken w s else (s, Inr ()))"

subsection \<open>Stats fetcher\<close>

record video_stats =
  views :: int
  likes :: int
  comments :: int
  currentTitle :: "json option"
  publishedAt :: "json option"
  likeRatio :: js_number
  commentRatio :: js_number

text \<open>\<open>parseInt(c) || 0\<close>: \<open>NaN\<close> and \<open>0\<close> both become \<open>0\<close>.\<close>

definition parseInt :: "nat option \<Rightarrow> int option" where
  "parseInt c = map_option int c"

definition or_zero :: "int option \<Rightarrow> int" where
  "or_zero v = (case v of None \<Rightarrow> 0 | Some n \<Rightarrow> if n = 0 then 0 else n)"

text \<open>
  \<open>viewCount > 0 ? (parseInt(count) || 0) / parseInt(viewCount) : 0\<close>. The test
  coerces the property to a number (a missing one to \<open>NaN\<close>, which is not
  greater than \<open>0\<close>); the divisor is \<open>parseInt(viewCount)\<close> as it is, \<open>NaN\<close>
  included.
\<close>

definition gt_zero :: "nat option \<Rightarrow> bool" where
  "gt_zero c = (case c of None \<Rightarrow> False | Some n \<Rightarrow> 0 < n)"

definition as_number :: "int option \<Rightarrow> js_number" where
  "as_number v = (case v of None \<Rightarrow> NaN | Some n \<Rightarrow> Num (real_of_int n))"

definition ratio :: "nat option \<Rightarrow> nat option \<Rightarrow> js_number" where
  "ratio c vc =
     (if gt_zero vc
      then js_divide (Num (real_of_int (or_zero (parseInt c)))) (as_number (parseInt vc))
      else Num 0)"

definition not_found_message :: "js_string \<Rightarrow> js_string" where
  "not_found_message videoId = lit ''Video with ID '' @ videoId @ lit '' not found''"

definition TypeError_undefined :: "string \<Rightarrow> js_error" where
  "TypeError_undefined prop =
     new_Error (lit ''Cannot read properties of undefined (reading '' @ [of_char (CHR 0x27)]
       @ lit prop @ [of_char (CHR 0x27)] @ lit '')'')"

definition getVideoStats :: "world \<Rightarrow> js_string \<Rightarrow> automator \<Rightarrow> automator \<times> (js_error + video_stats)" where
  "getVideoStats w videoId s =
     (let s1 = emit (VideosGet videoId (lit ''statistics,snippet'')) s in
      case videos_get w (tick s) of
        GetErr e \<Rightarrow> (s1, Inl e)
      | GetOk None \<Rightarrow> (s1, Inl (new_Error (not_found_message videoId)))
      | GetOk (Some []) \<Rightarrow> (s1, Inl (new_Error (not_found_message videoId)))
      | GetOk (Some (video # _)) \<Rightarrow>
          (case item_statistics video of
             None \<Rightarrow> (s1, Inl (TypeError_undefined ''viewCount''))
           | Some st \<Rightarrow>
              (case item_snippet video of
                 None \<Rightarrow> (s1, Inl (TypeError_undefined ''title''))
               | Some snippet \<Rightarrow>
                  (let stats = \<lparr>views = or_zero (parseInt (viewCount st)),
                                 likes = or_zero (parseInt (likeCount st)),
                                 comments = or_zero (parseInt (commentCount st)),
                                 currentTitle = map_of snippet (lit ''title''),
                                 publishedAt = map_of snippet (lit ''publishedAt''),
                                 likeRatio = ratio (likeCount st) (viewCount st),
                                 commentRatio = ratio (commentCount st) (viewCount st)\<rparr>;
                       totalEngagement = likes stats + comments stats;
                       s2 = (if totalEngagement > peakEngagement s1
                             then s1\<lparr>peakEngagement := totalEngagement\<rparr> else s1)
                   in (s2, Inr stats)))))"

subsection \<open>Title renderer\<close>

text \<open>
  The three templates of the category \<open>detailed\<close>, the only one ever selected.
  \<open>Math.floor(Math.random() * 3)\<close> indexes them; an index outside the array
  would read \<open>undefined\<close>, whose \<open>.length\<close> is a \<open>TypeError\<close>.
\<close>

definition templates :: "js_string \<Rightarrow> js_string \<Rightarrow> js_string \<Rightarrow> js_string \<Rightarrow> js_string list" where
  "templates v l c originalTitle =
     [lit ''This video now has '' @ v @ lit '' views, '' @ l @ lit '' likes, and '' @ c
        @ lit '' comments - '' @ originalTitle,
      originalTitle @ lit '' | This video now has '' @ v @ lit '' views, '' @ l
        @ lit '' likes, '' @ c @ lit '' comments'',
      lit ''This video now has '' @ v @ lit '' views, '' @ l @ lit '' likes, '' @ c
        @ lit '' comments: '' @ originalTitle]"

definition generateDynamicTitle :: "world \<Rightarrow> nat \<Rightarrow> video_stats \<Rightarrow> js_string \<Rightarrow> js_error + js_string" where
  "generateDynamicTitle w n stats originalTitle =
     (let v = toLocaleString w (views stats);
          l = toLocaleString w (likes stats);
          c = toLocaleString w (comments stats);
          categoryTemplates = templates v l c originalTitle;
          i = \<lfloor>math_random w n * real (length categoryTemplates)\<rfloor>
      in if 0 \<le> i \<and> i < int (length categoryTemplates)
         then (let randomTemplate = categoryTemplates ! nat i
               in Inr (if length randomTemplate \<le> 100 then randomTemplate
                       else take 97 randomTemplate @ lit ''...''))
         else Inl (TypeError_undefined ''length''))"

subsection \<open>Update executor\<close>

text \<open>
  The object literal \<open>{...snippet, title: newTitle, categoryId: snippet.categoryId}\<close>
  in memory: a property may hold \<open>undefined\<close> (\<open>None\<close>). The request body is its
  JSON text, which leaves out the properties that hold \<open>undefined\<close>.
\<close>

definition spread :: "json_object \<Rightarrow> (js_string \<times> json option) list" where
  "spread obj = map (\<lambda>(k, v). (k, Some v)) obj"

definition snippet_literal :: "json_object \<Rightarrow> js_string \<Rightarrow> (js_string \<times> json option) list" where
  "snippet_literal snippet newTitle =
     AList.update (lit ''categoryId'') (map_of snippet (lit ''categoryId''))
       (AList.update (lit ''title'') (Some (JStr newTitle)) (spread snippet))"

definition stringify :: "(js_string \<times> json option) list \<Rightarrow> json_object" where
  "stringify obj = List.map_filter (\<lambda>(k, v). map_option (Pair k) v) obj"

definition update_not_found_message :: "js_string \<Rightarrow> js_string" where
  "update_not_found_message videoId = lit ''Video '' @ videoId @ lit '' not found for title update''"

text \<open>
  The \<open>try\<close> block of \<open>updateVideoTitle\<close>: one attempt. The third parameter
  of the source, \<open>currentStats\<close>, is read by the log lines only and is left
  out with them.
\<close>

definition update_attempt :: "world \<Rightarrow> js_string \<Rightarrow> js_string \<Rightarrow> automator \<Rightarrow> automator \<times> (js_error + bool)" where
  "update_attempt w videoId newTitle s =
     (let s1 = emit (VideosGet videoId (lit ''snippet'')) s in
      case videos_get w (tick s) of
        GetErr e \<Rightarrow> (s1, Inl e)
      | GetOk None \<Rightarrow> (s1, Inl (new_Error (update_not_found_message videoId)))
      | GetOk (Some []) \<Rightarrow> (s1, Inl (new_Error (update_not_found_message videoId)))
      | GetOk (Some (video # _)) \<Rightarrow>
          (case item_snippet video of
             None \<Rightarrow> (s1, Inl (TypeError_undefined ''categoryId''))
           | Some snippet \<Rightarrow>
              (let updateData = stringify (snippet_literal snippet newTitle);
                   s2 = emit (VideosPut videoId updateData (accessToken s1)) s1
               in case videos_put w (tick s1) of
                    PutErr e \<Rightarrow> (s2, Inl e)
                  | PutOk \<Rightarrow>
                      (s2\<lparr>updatesPerformed := updatesPerformed s2 + 1,
                          lastUpdate := Some (date_iso w (tick s2))\<rparr>, Inr True))))"

text \<open>
  \<open>updateVideoTitle\<close> calls itself from its \<open>catch\<close> block on status 401, with
  nothing that counts the calls. The first argument bounds the number of
  attempts; \<open>None\<close> is the run that has not returned within that bound.
\<close>

fun updateVideoTitle :: "nat \<Rightarrow> world \<Rightarrow> js_string \<Rightarrow> js_string \<Rightarrow> automator \<Rightarrow> (automator \<times> (js_error + bool)) option" where
  "updateVideoTitle 0 w videoId newTitle s = None"
| "updateVideoTitle (Suc fuel) w videoId newTitle s =
     (case ensureValidAccessToken w s of
        (s1, Inl e) \<Rightarrow> Some (s1, Inl e)
      | (s1, Inr _) \<Rightarrow>
          (case update_attempt w videoId newTitle s1 of
             (s2, Inr ok) \<Rightarrow> Some (s2, Inr ok)
           | (s2, Inl error) \<Rightarrow>
               if response_status error = Some 401
               then (case refreshAccessToken w s2 of
                       (s3, Inl e) \<Rightarrow> Some (s3, Inl e)
                     | (s3, Inr _) \<Rightarrow> updateVideoTitle fuel w videoId newTitle s3)
               else Some (s2, Inl error)))"

subsection \<open>Batch orchestrator\<close>

record video_task =
  videoId :: js_string
  originalTitle :: js_string

datatype process_result =
    Succeeded (result_videoId: js_string) (oldTitle: "json option") (newTitle: js_string)
      (result_stats: video_stats)
  | Failed (result_videoId: js_string) (error: js_string)

definition success :: "process_result \<Rightarrow> bool" where
  "success r = (case r of Succeeded _ _ _ _ \<Rightarrow> True | Failed _ _ \<Rightarrow> False)"

definition processVideo :: "nat \<Rightarrow> world \<Rightarrow> js_string \<Rightarrow> js_string \<Rightarrow> automator \<Rightarrow> (automator \<times> process_result) option" where
  "processVideo fuel w vid title s =
     (case getVideoStats w vid s of
        (s1, Inl e) \<Rightarrow> Some (s1, Failed vid (message e))
      | (s1, Inr stats) \<Rightarrow>
          (case generateDynamicTitle w (tick s1) stats title of
             Inl e \<Rightarrow> Some (s1, Failed vid (message e))
           | Inr candidate \<Rightarrow>
               if currentTitle stats \<noteq> Some (JStr candidate)
               then (case updateVideoTitle fuel w vid candidate s1 of
                       None \<Rightarrow> None
                     | Some (s2, Inl e) \<Rightarrow> Some (s2, Failed vid (message e))
                     | Some (s2, Inr _) \<Rightarrow>
                         Some (s2, Succeeded vid (currentTitle stats) candidate stats))
               else Some (s1, Succeeded vid (currentTitle stats) candidate stats)))"

text \<open>The \<open>for\<close> loop of \<open>processMultipleVideos\<close>, from index \<open>i\<close> on.\<close>

function batch_loop :: "nat \<Rightarrow> world \<Rightarrow> video_task list \<Rightarrow> nat \<Rightarrow> process_result list \<Rightarrow> automator \<Rightarrow> (automator \<times> process_result list) option" where
  "batch_loop fuel w videos i results s =
     (if i < length videos
      then (case processVideo fuel w (videoId (videos ! i)) (originalTitle (videos ! i)) s of
              None \<Rightarrow> None
            | Some (s1, result) \<Rightarrow>
                batch_loop fuel w videos (i + 1) (results @ [result])
                  (if int i < int (length videos) - 1 then emit (Sleep 2000) s1 else s1))
      else Some (s, results))"
  by pat_completeness auto
termination
  by (relation "measure (\<lambda>(fuel, w, videos, i, results, s). length videos - i)") auto

definition processMultipleVideos :: "nat \<Rightarrow> world \<Rightarrow> video_task list \<Rightarrow> automator \<Rightarrow> (automator \<times> process_result list) option" where
  "processMultipleVideos fuel w videos s = batch_loop fuel w videos 0 [] s"

declare batch_loop.simps [simp del]

section \<open>Concrete platforms\<close>

text \<open>
  The number formatting of the locale \<open>en-US\<close>: decimal digits in groups of
  three, separated by commas.
\<close>

definition digit :: "nat \<Rightarrow> 16 word" where
  "digit d = of_nat (48 + d)"

function decimal :: "nat \<Rightarrow> js_string" where
  "decimal n = (if n < 10 then [digit n] else decimal (n div 10) @ [digit (n mod 10)])"
  by pat_completeness auto
termination
  by (relation "measure id") auto

declare decimal.simps [simp del]

fun group_rev :: "js_string \<Rightarrow> js_string" where
  "group_rev (a # b # c # d # rest) = a # b # c # of_char CHR '','' # group_rev (d # rest)"
| "group_rev xs = xs"

definition en_US :: "int \<Rightarrow> js_string" where
  "en_US n = (if n < 0 then lit ''-'' else []) @ rev (group_rev (rev (decimal (nat \<bar>n\<bar>))))"

definition http_error :: "nat \<Rightarrow> js_error" where
  "http_error status =
     \<lparr>response = Some (status, JNull), message = lit ''Request failed with status code '' @ decimal status\<rparr>"

definition demo_item :: "js_string \<Rightarrow> video_item" where
  "demo_item title =
     \<lparr>item_statistics = Some \<lparr>viewCount = Some 1000, likeCount = Some 50, commentCount = Some 10\<rparr>,
      item_snippet = Some [(lit ''title'', JStr title), (lit ''description'', JStr (lit ''about'')),
                           (lit ''categoryId'', JStr (lit ''22''))]\<rparr>"

text \<open>
  A platform that always has the same video, with the given title, and answers
  the writes as the given script says; the token endpoint always succeeds.
\<close>

definition demo_world :: "js_string \<Rightarrow> (nat \<Rightarrow> put_response) \<Rightarrow> world" where
  "demo_world title puts =
     \<lparr>token_endpoint = (\<lambda>n. TokenOk (lit ''ya29.token'') 3599),
      videos_get = (\<lambda>n. GetOk (Some [demo_item title])),
      videos_put = puts,
      date_now = (\<lambda>n. 1700000000000 + 1000 * n),
      date_iso = (\<lambda>n. lit ''2023-11-14T22:13:20.000Z''),
      math_random = (\<lambda>n. 1 / 2),
      toLocaleString = en_US\<rparr>"

definition demo_payload :: "js_string \<Rightarrow> json_object" where
  "demo_payload title =
     [(lit ''title'', JStr title), (lit ''description'', JStr (lit ''about'')),
      (lit ''categoryId'', JStr (lit ''22''))]"

text \<open>States that runs on these platforms reach from the freshly constructed automator.\<close>

definition with_token :: automator where
  "with_token = constructor\<lparr>accessToken := Some (lit ''ya29.token''),
     accessTokenExpiry := Some 1700003600000\<rparr>"

definition update_events :: "js_string \<Rightarrow> event list" where
  "update_events title =
     [TokenPost, VideosGet (lit ''vidA'') (lit ''snippet''),
      VideosPut (lit ''vidA'') (demo_payload title) (Some (lit ''ya29.token''))]"

definition after_rejected :: automator where
  "after_rejected = with_token\<lparr>trace := update_events (lit ''New'')\<rparr>"

definition after_accepted :: automator where
  "after_accepted = with_token\<lparr>updatesPerformed := 1,
     lastUpdate := Some (lit ''2023-11-14T22:13:20.000Z''),
     trace := update_events (lit ''New'')\<rparr>"

text \<open>A script of writes: the first two writes are answered with 401, later ones accepted.\<close>

definition twice_401 :: "nat \<Rightarrow> put_response" where
  "twice_401 n = (if n < 6 then PutErr (http_error 401) else PutOk)"

definition after_two_401 :: automator where
  "after_two_401 = constructor\<lparr>accessToken := Some (lit ''ya29.token''),
     accessTokenExpiry := Some 1700003606000,
     updatesPerformed := 1,
     lastUpdate := Some (lit ''2023-11-14T22:13:20.000Z''),
     trace := update_events (lit ''New'') @ update_events (lit ''New'') @
       update_events (lit ''New'')\<rparr>"

definition rendered_demo :: js_string where
  "rendered_demo = lit ''Demo | This video now has 1,000 views, 50 likes, 10 comments''"

definition demo_stats :: "js_string \<Rightarrow> video_stats" where
  "demo_stats title =
     \<lparr>views = 1000, likes = 50, comments = 10, currentTitle = Some (JStr title),
      publishedAt = None,
      likeRatio = Num (3602879701896397 / 72057594037927936),
      commentRatio = Num (5764607523034235 / 576460752303423488)\<rparr>"



definition after_fetch :: automator where
  "after_fetch = constructor\<lparr>peakEngagement := 60,
     trace := [VideosGet (lit ''vidA'') (lit ''statistics,snippet'')]\<rparr>"



definition demo_tasks :: "video_task list" where
  "demo_tasks = [\<lparr>videoId = lit ''vidA'', originalTitle = lit ''Demo''\<rparr>,
                 \<lparr>videoId = lit ''vidB'', originalTitle = lit ''Demo''\<rparr>,
                 \<lparr>videoId = lit ''vidC'', originalTitle = lit ''Demo''\<rparr>]"

section \<open>Properties used in the statements\<close>

definition write_calls :: "event list \<Rightarrow> nat" where
  "write_calls evs = length (filter (\<lambda>ev. case ev of VideosPut _ _ _ \<Rightarrow> True | _ \<Rightarrow> False) evs)"

definition refresh_calls :: "event list \<Rightarrow> nat" where
  "refresh_calls evs = length (filter (\<lambda>ev. case ev of TokenPost \<Rightarrow> True | _ \<Rightarrow> False) evs)"


text \<open>The events that the update of the video \<open>vid\<close> can leave in the record.\<close>

definition update_event :: "js_string \<Rightarrow> event \<Rightarrow> bool" where
  "update_event vid ev =
     (case ev of
        TokenPost \<Rightarrow> True
      | VideosGet v part \<Rightarrow> v = vid \<and> part = lit ''snippet''
      | VideosPut v _ _ \<Rightarrow> v = vid
      | Sleep _ \<Rightarrow> False)"

text \<open>
  The record of a batch that is processed strictly in sequence: for each task
  in order, the statistics read of its video, then nothing but events of the
  update of that video, then a pause of 2000 ms when another task follows, and
  nothing after the last task.
\<close>

fun sequential :: "video_task list \<Rightarrow> event list \<Rightarrow> bool" where
  "sequential [] evs = (evs = [])"
| "sequential (t # ts) [] = False"
| "sequential (t # ts) (ev # evs) =
     (ev = VideosGet (videoId t) (lit ''statistics,snippet'') \<and>
      (let rest = dropWhile (update_event (videoId t)) evs
       in if ts = [] then rest = []
          else (case rest of
                  Sleep ms # later \<Rightarrow> ms = 2000 \<and> sequential ts later
                | _ \<Rightarrow> False)))"


text \<open>
  The record of \<open>b\<close> continues the record of \<open>a\<close> with events of the update of
  the video \<open>vid\<close>.
\<close>

definition continues :: "js_string \<Rightarrow> automator \<Rightarrow> automator \<Rightarrow> bool" where
  "continues vid a b = (\<exists>evs. trace b = trace a @ evs \<and> list_all (update_event vid) evs)"

section \<open>Basic facts\<close>

lemma length_lit [simp]: "length (lit s) = length s"
  by (simp add: lit_def)

lemma emit_simps [simp]:
  "trace (emit ev s) = trace s @ [ev]"
  "accessToken (emit ev s) = accessToken s"
  "accessTokenExpiry (emit ev s) = accessTokenExpiry s"
  "updatesPerformed (emit ev s) = updatesPerformed s"
  "lastUpdate (emit ev s) = lastUpdate s"
  "peakEngagement (emit ev s) = peakEngagement s"
  by (simp_all add: emit_def)

lemma tick_emit [simp]: "tick (emit ev s) = Suc (tick s)"
  by (simp add: tick_def)

subsection \<open>Token manager\<close>

lemma refresh_frame:
  assumes "refreshAccessToken w s = (s', r)"
  shows "trace s' = trace s @ [TokenPost]"
    and "updatesPerformed s' = updatesPerformed s"
    and "lastUpdate s' = lastUpdate s"
    and "peakEngagement s' = peakEngagement s"
  using assms by (auto simp: refreshAccessToken_def Let_def split: token_response.splits)

lemma refresh_error:
  assumes "refreshAccessToken w s = (s', Inl e)"
  shows "token_endpoint w (tick s) = TokenErr e"
  using assms by (auto simp: refreshAccessToken_def Let_def split: token_response.splits)

lemma ensure_frame:
  assumes "ensureValidAccessToken w s = (s', r)"
  shows "trace s' = trace s \<or> trace s' = trace s @ [TokenPost]"
    and "updatesPerformed s' = updatesPerformed s"
    and "lastUpdate s' = lastUpdate s"
    and "peakEngagement s' = peakEngagement s"
  using assms refresh_frame [of w s s' r]
  by (auto simp: ensureValidAccessToken_def split: if_splits)

lemma ensure_error:
  assumes "ensureValidAccessToken w s = (s', Inl e)"
  shows "token_endpoint w (tick s) = TokenErr e \<and> trace s' = trace s @ [TokenPost]"
  using assms refresh_frame(1) [of w s s' "Inl e"] refresh_error [of w s s' e]
  by (auto simp: ensureValidAccessToken_def split: if_splits)

subsection \<open>Stats fetcher\<close>

lemma getVideoStats_frame:
  assumes "getVideoStats w vid s = (s', r)"
  shows "trace s' = trace s @ [VideosGet vid (lit ''statistics,snippet'')]"
    and "updatesPerformed s' = updatesPerformed s"
    and "lastUpdate s' = lastUpdate s"
    and "accessToken s' = accessToken s"
    and "accessTokenExpiry s' = accessTokenExpiry s"
  using assms
  by (auto simp: getVideoStats_def Let_def
      split: get_response.splits option.splits list.splits if_splits)

lemma getVideoStats_peak:
  assumes "getVideoStats w vid s = (s', r)"
  shows "peakEngagement s' =
           (case r of Inl e \<Rightarrow> peakEngagement s
            | Inr st \<Rightarrow> max (peakEngagement s) (likes st + comments st))"
  using assms
  by (auto simp: getVideoStats_def Let_def
      split: get_response.splits option.splits list.splits if_splits)


lemma or_zero_parseInt: "or_zero (parseInt c) = (case c of None \<Rightarrow> 0 | Some n \<Rightarrow> int n)"
  by (simp add: or_zero_def parseInt_def split: option.splits)

subsection \<open>Update executor\<close>

lemma stringify_spread: "stringify (spread obj) = obj"
  by (induction obj) (auto simp: stringify_def spread_def)

lemma spread_update: "AList.update k (Some v) (spread obj) = spread (AList.update k v obj)"
  by (induction obj) (auto simp: spread_def)

lemma map_of_spread: "map_of (spread obj) k = map_option Some (map_of obj k)"
  by (induction obj) (auto simp: spread_def)

lemma update_absent: "map_of al k = None \<Longrightarrow> AList.update k v al = al @ [(k, v)]"
  by (induction al) (auto split: if_splits)

lemma stringify_append_undefined: "stringify (obj @ [(k, None)]) = stringify obj"
  by (induction obj) (auto simp: stringify_def split: option.splits)

lemma title_neq_categoryId: "lit ''title'' \<noteq> lit ''categoryId''"
  by (simp add: lit_def)

lemma payload_eq:
  "stringify (snippet_literal snippet t) = AList.update (lit ''title'') (JStr t) snippet"
proof (cases "map_of snippet (lit ''categoryId'')")
  case None
  let ?obj = "spread (AList.update (lit ''title'') (JStr t) snippet)"
  have "map_of ?obj (lit ''categoryId'') = None"
    using None title_neq_categoryId by (simp add: map_of_spread update_conv')
  then have "AList.update (lit ''categoryId'') None ?obj = ?obj @ [(lit ''categoryId'', None)]"
    by (rule update_absent)
  then show ?thesis
    using None
    by (simp add: snippet_literal_def spread_update stringify_append_undefined stringify_spread)
next
  case (Some v)
  let ?al = "AList.update (lit ''title'') (JStr t) snippet"
  have "map_of ?al (lit ''categoryId'') = Some v"
    using Some title_neq_categoryId by (simp add: update_conv')
  then have "AList.update (lit ''categoryId'') v ?al = ?al"
    by (rule update_triv)
  then show ?thesis
    using Some by (simp add: snippet_literal_def spread_update stringify_spread)
qed

lemma update_attempt_frame:
  assumes "update_attempt w vid t s = (s', r)"
  shows "peakEngagement s' = peakEngagement s"
    and "accessToken s' = accessToken s"
    and "accessTokenExpiry s' = accessTokenExpiry s"
    and "tick s < tick s'"
  using assms
  by (auto simp: update_attempt_def Let_def tick_def
      split: get_response.splits put_response.splits option.splits list.splits)

lemma update_attempt_failure:
  assumes "update_attempt w vid t s = (s', Inl e)"
  shows "updatesPerformed s' = updatesPerformed s" and "lastUpdate s' = lastUpdate s"
  using assms
  by (auto simp: update_attempt_def Let_def
      split: get_response.splits put_response.splits option.splits list.splits)

lemma update_attempt_success:
  assumes "update_attempt w vid t s = (s', Inr ok)"
  shows "\<exists>video rest snippet.
           videos_get w (tick s) = GetOk (Some (video # rest)) \<and>
           item_snippet video = Some snippet \<and>
           videos_put w (Suc (tick s)) = PutOk \<and>
           trace s' = trace s @ [VideosGet vid (lit ''snippet''),
             VideosPut vid (AList.update (lit ''title'') (JStr t) snippet) (accessToken s)] \<and>
           updatesPerformed s' = updatesPerformed s + 1 \<and>
           lastUpdate s' = Some (date_iso w (tick s + 2)) \<and> ok"
  using assms
  by (auto simp: update_attempt_def Let_def tick_def payload_eq
      split: get_response.splits put_response.splits option.splits list.splits)


text \<open>The four ways in which a call of \<open>updateVideoTitle\<close> comes to a result.\<close>

lemma updateVideoTitle_cases [consumes 1, case_names ensure_failed attempt_final refresh_failed retried]:
  assumes "updateVideoTitle (Suc fuel) w vid t s = Some (s', r)"
  obtains
    e where "ensureValidAccessToken w s = (s', Inl e)" and "r = Inl e"
  | s1 u where "ensureValidAccessToken w s = (s1, Inr u)"
      and "update_attempt w vid t s1 = (s', r)"
      and "\<forall>e. r = Inl e \<longrightarrow> response_status e \<noteq> Some 401"
  | s1 u s2 err e where "ensureValidAccessToken w s = (s1, Inr u)"
      and "update_attempt w vid t s1 = (s2, Inl err)" and "response_status err = Some 401"
      and "refreshAccessToken w s2 = (s', Inl e)" and "r = Inl e"
  | s1 u s2 err s3 u' where "ensureValidAccessToken w s = (s1, Inr u)"
      and "update_attempt w vid t s1 = (s2, Inl err)" and "response_status err = Some 401"
      and "refreshAccessToken w s2 = (s3, Inr u')"
      and "updateVideoTitle fuel w vid t s3 = Some (s', r)"
proof -
  obtain s1 r1 where ens: "ensureValidAccessToken w s = (s1, r1)"
    by (cases "ensureValidAccessToken w s")
  show thesis
  proof (cases r1)
    case (Inl e)
    with ens assms that(1) show thesis by simp
  next
    case (Inr u)
    obtain s2 r2 where att: "update_attempt w vid t s1 = (s2, r2)"
      by (cases "update_attempt w vid t s1")
    show thesis
    proof (cases r2)
      case ok: (Inr ok)
      with ens Inr att assms that(2) show thesis by auto
    next
      case err: (Inl err)
      show thesis
      proof (cases "response_status err = Some 401")
        case False
        with ens Inr att err assms that(2) show thesis by auto
      next
        case True
        obtain s3 r3 where ref: "refreshAccessToken w s2 = (s3, r3)"
          by (cases "refreshAccessToken w s2")
        show thesis
        proof (cases r3)
          case (Inl e)
          with ens Inr att err True ref assms that(3) show thesis by simp
        next
          case r3: (Inr u')
          with ens Inr att err True ref assms that(4) show thesis by simp
        qed
      qed
    qed
  qed
qed

lemma tick_mono_ensure:
  assumes "ensureValidAccessToken w s = (s', r)"
  shows "tick s \<le> tick s'"
  using ensure_frame(1) [OF assms] by (auto simp: tick_def)

lemma tick_refresh:
  assumes "refreshAccessToken w s = (s', r)"
  shows "tick s' = Suc (tick s)"
  using refresh_frame(1) [OF assms] by (simp add: tick_def)

lemma updateVideoTitle_frame:
  assumes "updateVideoTitle fuel w vid t s = Some (s', r)"
  shows "peakEngagement s' = peakEngagement s \<and> tick s < tick s'"
  using assms
proof (induction fuel arbitrary: s)
  case 0
  then show ?case by simp
next
  case (Suc fuel)
  from Suc.prems show ?case
  proof (cases rule: updateVideoTitle_cases)
    case (ensure_failed e)
    then show ?thesis
      using ensure_frame(4) [of w s s' "Inl e"] ensure_error [of w s s' e]
      by (simp add: tick_def)
  next
    case (attempt_final s1 u)
    then show ?thesis
      using ensure_frame(4) [of w s s1 "Inr u"] tick_mono_ensure [of w s s1 "Inr u"]
        update_attempt_frame(1,4) [of w vid t s1 s' r]
      by simp
  next
    case (refresh_failed s1 u s2 err e)
    then show ?thesis
      using ensure_frame(4) [of w s s1 "Inr u"] tick_mono_ensure [of w s s1 "Inr u"]
        update_attempt_frame(1,4) [of w vid t s1 s2 "Inl err"]
        refresh_frame(4) [of w s2 s' "Inl e"] tick_refresh [of w s2 s' "Inl e"]
      by simp
  next
    case (retried s1 u s2 err s3 u')
    then show ?thesis
      using ensure_frame(4) [of w s s1 "Inr u"] tick_mono_ensure [of w s s1 "Inr u"]
        update_attempt_frame(1,4) [of w vid t s1 s2 "Inl err"]
        refresh_frame(4) [of w s2 s3 "Inr u'"] tick_refresh [of w s2 s3 "Inr u'"]
        Suc.IH [of s3]
      by simp
  qed
qed

lemma continues_refl: "continues vid a a"
  by (simp add: continues_def)

lemma continues_trans: "continues vid a b \<Longrightarrow> continues vid b c \<Longrightarrow> continues vid a c"
  by (auto simp: continues_def)

lemma continues_ensure:
  assumes "ensureValidAccessToken w a = (b, x)"
  shows "continues vid a b"
  using ensure_frame(1) [OF assms] by (auto simp: continues_def update_event_def)

lemma continues_refresh:
  assumes "refreshAccessToken w a = (b, x)"
  shows "continues vid a b"
  using refresh_frame(1) [OF assms] by (auto simp: continues_def update_event_def)

lemma continues_attempt:
  assumes "update_attempt w vid t a = (b, x)"
  shows "continues vid a b"
  using assms
  by (auto simp: update_attempt_def Let_def update_event_def continues_def
      split: get_response.splits put_response.splits option.splits list.splits)

lemma updateVideoTitle_continues:
  assumes "updateVideoTitle fuel w vid t s = Some (s', r)"
  shows "continues vid s s'"
  using assms
proof (induction fuel arbitrary: s)
  case 0
  then show ?case by simp
next
  case (Suc fuel)
  from Suc.prems show ?case
  proof (cases rule: updateVideoTitle_cases)
    case (ensure_failed e)
    then show ?thesis by (simp add: continues_ensure)
  next
    case (attempt_final s1 u)
    from continues_ensure [OF attempt_final(1)] continues_attempt [OF attempt_final(2)]
    show ?thesis by (rule continues_trans)
  next
    case (refresh_failed s1 u s2 err e)
    have "continues vid s s2"
      using continues_ensure [OF refresh_failed(1)] continues_attempt [OF refresh_failed(2)]
      by (rule continues_trans)
    then show ?thesis
      using continues_refresh [OF refresh_failed(4)] by (rule continues_trans)
  next
    case (retried s1 u s2 err s3 u')
    have "continues vid s s2"
      using continues_ensure [OF retried(1)] continues_attempt [OF retried(2)]
      by (rule continues_trans)
    then have "continues vid s s3"
      using continues_refresh [OF retried(4)] by (rule continues_trans)
    then show ?thesis
      using Suc.IH [OF retried(5)] by (rule continues_trans)
  qed
qed

lemma updateVideoTitle_failure:
  assumes "updateVideoTitle fuel w vid t s = Some (s', Inl e)"
  shows "updatesPerformed s' = updatesPerformed s \<and> lastUpdate s' = lastUpdate s \<and>
         (response_status e \<noteq> Some 401 \<or>
          (\<exists>n. tick s \<le> n \<and> n < tick s' \<and> token_endpoint w n = TokenErr e))"
  using assms
proof (induction fuel arbitrary: s)
  case 0
  then show ?case by simp
next
  case (Suc fuel)
  from Suc.prems show ?case
  proof (cases rule: updateVideoTitle_cases)
    case (ensure_failed e')
    then have "e' = e" by simp
    with ensure_failed show ?thesis
      using ensure_frame(2,3) [of w s s' "Inl e"] ensure_error [of w s s' e]
      by (auto simp: tick_def)
  next
    case (attempt_final s1 u)
    then show ?thesis
      using ensure_frame(2,3) [of w s s1 "Inr u"]
        update_attempt_failure [of w vid t s1 s' e]
      by simp
  next
    case (refresh_failed s1 u s2 err e')
    then have [simp]: "e' = e" by simp
    have "tick s \<le> tick s2"
      using tick_mono_ensure [OF refresh_failed(1)] update_attempt_frame(4) [OF refresh_failed(2)]
      by simp
    moreover have "tick s2 < tick s'"
      using tick_refresh [OF refresh_failed(4)] by simp
    moreover have "token_endpoint w (tick s2) = TokenErr e"
      using refresh_error [of w s2 s' e] refresh_failed(4) by simp
    ultimately have "\<exists>n. tick s \<le> n \<and> n < tick s' \<and> token_endpoint w n = TokenErr e"
      by blast
    then show ?thesis
      using ensure_frame(2,3) [OF refresh_failed(1)]
        update_attempt_failure [OF refresh_failed(2)]
        refresh_frame(2,3) [OF refresh_failed(4)]
      by simp
  next
    case (retried s1 u s2 err s3 u')
    have le: "tick s \<le> tick s3"
      using tick_mono_ensure [OF retried(1)] update_attempt_frame(4) [OF retried(2)]
        tick_refresh [OF retried(4)]
      by simp
    have ih: "updatesPerformed s' = updatesPerformed s3 \<and> lastUpdate s' = lastUpdate s3 \<and>
         (response_status e \<noteq> Some 401 \<or>
          (\<exists>n. tick s3 \<le> n \<and> n < tick s' \<and> token_endpoint w n = TokenErr e))"
      using Suc.IH [OF retried(5)] .
    have same: "updatesPerformed s3 = updatesPerformed s \<and> lastUpdate s3 = lastUpdate s"
      using ensure_frame(2,3) [OF retried(1)] update_attempt_failure [OF retried(2)]
        refresh_frame(2,3) [OF retried(4)]
      by simp
    show ?thesis
    proof (cases "response_status e = Some 401")
      case False
      with ih same show ?thesis by simp
    next
      case True
      with ih obtain n where "tick s3 \<le> n" "n < tick s'" "token_endpoint w n = TokenErr e"
        by blast
      with le have "tick s \<le> n \<and> n < tick s' \<and> token_endpoint w n = TokenErr e"
        by simp
      with ih same show ?thesis by auto
    qed
  qed
qed

lemma updateVideoTitle_success:
  assumes "updateVideoTitle fuel w vid t s = Some (s', Inr ok)"
  shows "\<exists>pre video rest snip tok.
           trace s' = pre @ [VideosGet vid (lit ''snippet''),
             VideosPut vid (AList.update (lit ''title'') (JStr t) snip) tok] \<and>
           tick s \<le> length pre \<and>
           videos_get w (length pre) = GetOk (Some (video # rest)) \<and>
           item_snippet video = Some snip \<and>
           videos_put w (Suc (length pre)) = PutOk \<and>
           updatesPerformed s' = updatesPerformed s + 1 \<and>
           lastUpdate s' = Some (date_iso w (length pre + 2)) \<and> ok"
  using assms
proof (induction fuel arbitrary: s)
  case 0
  then show ?case by simp
next
  case (Suc fuel)
  from Suc.prems show ?case
  proof (cases rule: updateVideoTitle_cases)
    case (ensure_failed e)
    then show ?thesis by simp
  next
    case (attempt_final s1 u)
    have le: "tick s \<le> tick s1"
      using tick_mono_ensure [OF attempt_final(1)] .
    have same: "updatesPerformed s1 = updatesPerformed s"
      using ensure_frame(2) [OF attempt_final(1)] .
    from update_attempt_success [OF attempt_final(2)]
    obtain video rest snip where a:
      "videos_get w (tick s1) = GetOk (Some (video # rest))"
      "item_snippet video = Some snip"
      "videos_put w (Suc (tick s1)) = PutOk"
      "trace s' = trace s1 @ [VideosGet vid (lit ''snippet''),
         VideosPut vid (AList.update (lit ''title'') (JStr t) snip) (accessToken s1)]"
      "updatesPerformed s' = updatesPerformed s1 + 1"
      "lastUpdate s' = Some (date_iso w (tick s1 + 2))" "ok"
      by blast
    show ?thesis
      apply (rule exI [of _ "trace s1"], rule exI [of _ video], rule exI [of _ rest],
          rule exI [of _ snip], rule exI [of _ "accessToken s1"])
      using a le same by (simp add: tick_def)
  next
    case (refresh_failed s1 u s2 err e)
    then show ?thesis by simp
  next
    case (retried s1 u s2 err s3 u')
    have le: "tick s \<le> tick s3"
      using tick_mono_ensure [OF retried(1)] update_attempt_frame(4) [OF retried(2)]
        tick_refresh [OF retried(4)]
      by simp
    have same: "updatesPerformed s3 = updatesPerformed s"
      using ensure_frame(2) [OF retried(1)] update_attempt_failure [OF retried(2)]
        refresh_frame(2) [OF retried(4)]
      by simp
    from Suc.IH [OF retried(5)]
    obtain pre video rest snip tok where a:
      "trace s' = pre @ [VideosGet vid (lit ''snippet''),
         VideosPut vid (AList.update (lit ''title'') (JStr t) snip) tok]"
      "tick s3 \<le> length pre"
      "videos_get w (length pre) = GetOk (Some (video # rest))"
      "item_snippet video = Some snip"
      "videos_put w (Suc (length pre)) = PutOk"
      "updatesPerformed s' = updatesPerformed s3 + 1"
      "lastUpdate s' = Some (date_iso w (length pre + 2))" "ok"
      by blast
    show ?thesis
      apply (rule exI [of _ pre], rule exI [of _ video], rule exI [of _ rest],
          rule exI [of _ snip], rule exI [of _ tok])
      using a le same by simp
  qed
qed


section \<open>Token manager: when the token is refreshed\<close>




section \<open>Stats fetcher: the ratios\<close>

subsection \<open>Rounding to a double\<close>












subsection \<open>The quotient and the ratios\<close>







lemma ratio_demo:
  "ratio (Some 50) (Some 1000) = Num (3602879701896397 / 72057594037927936)"
  "ratio (Some 10) (Some 1000) = Num (5764607523034235 / 576460752303423488)"
  by (simp_all add: ratio_def gt_zero_def as_number_def parseInt_def or_zero_def round_double_def
      binary_exponent_def compute_floorlog round_half_even_def pow2_def Let_def)



section \<open>Title renderer: the length bound\<close>

lemma length_templates [simp]: "length (templates v l c title) = 3"
  by (simp add: templates_def)

text \<open>
  C2. Every string that \<open>generateDynamicTitle\<close> returns has at most 100 code
  units. When the chosen template has more than 100, the result is its first 97
  code units followed by three dots and has exactly 100; otherwise the result is
  the template itself. A string is returned whenever \<open>Math.random()\<close> is in
  \<open>[0, 1)\<close>.
\<close>

theorem generateDynamicTitle_length:
  "(\<forall>t. generateDynamicTitle w n st title = Inr t \<longrightarrow>
      length t \<le> 100 \<and>
      (let raw = templates (toLocaleString w (views st)) (toLocaleString w (likes st))
                   (toLocaleString w (comments st)) title ! nat \<lfloor>math_random w n * 3\<rfloor>
       in (100 < length raw \<longrightarrow> t = take 97 raw @ lit ''...'' \<and> length t = 100) \<and>
          (length raw \<le> 100 \<longrightarrow> t = raw))) \<and>
   (0 \<le> math_random w n \<and> math_random w n < 1 \<longrightarrow>
      (\<exists>t. generateDynamicTitle w n st title = Inr t))"
proof (intro conjI allI impI)
  fix t
  assume "generateDynamicTitle w n st title = Inr t"
  then have t: "t = (let raw = templates (toLocaleString w (views st)) (toLocaleString w (likes st))
                   (toLocaleString w (comments st)) title ! nat \<lfloor>math_random w n * 3\<rfloor>
       in if length raw \<le> 100 then raw else take 97 raw @ lit ''...'')"
    by (auto simp: generateDynamicTitle_def Let_def split: if_splits)
  then show "length t \<le> 100"
    by (simp add: Let_def)
  from t show "let raw = templates (toLocaleString w (views st)) (toLocaleString w (likes st))
                   (toLocaleString w (comments st)) title ! nat \<lfloor>math_random w n * 3\<rfloor>
       in (100 < length raw \<longrightarrow> t = take 97 raw @ lit ''...'' \<and> length t = 100) \<and>
          (length raw \<le> 100 \<longrightarrow> t = raw)"
    by (simp add: Let_def)
next
  assume r: "0 \<le> math_random w n \<and> math_random w n < 1"
  then have "0 \<le> \<lfloor>math_random w n * 3\<rfloor>" "\<lfloor>math_random w n * 3\<rfloor> < 3"
    by (simp_all add: floor_less_iff)
  then show "\<exists>t. generateDynamicTitle w n st title = Inr t"
    by (simp add: generateDynamicTitle_def Let_def)
qed

theorem generateDynamicTitle_length_witness:
  "generateDynamicTitle (demo_world rendered_demo (\<lambda>n. PutOk)) 0
     \<lparr>views = 1000, likes = 50, comments = 10, currentTitle = None, publishedAt = None,
      likeRatio = Num (3602879701896397 / 72057594037927936),
      commentRatio = Num (5764607523034235 / 576460752303423488)\<rparr>
     (lit ''Building Vaultittech: Real-Time Revenue Tracking'') =
   Inr (lit ''Building Vaultittech: Real-Time Revenue Tracking | This video now has 1,000 views, 50 likes, 10 c...'') \<and>
   length (lit ''Building Vaultittech: Real-Time Revenue Tracking | This video now has 1,000 views, 50 likes, 10 c...'') = 100 \<and>
   (0::real) \<le> 1 / 2 \<and> (1 / 2 :: real) < 1"
proof -
  let ?w = "demo_world rendered_demo (\<lambda>n. PutOk)"
  let ?st = "\<lparr>views = 1000, likes = 50, comments = 10, currentTitle = None, publishedAt = None,
      likeRatio = Num (3602879701896397 / 72057594037927936),
      commentRatio = Num (5764607523034235 / 576460752303423488)\<rparr>"
  let ?title = "lit ''Building Vaultittech: Real-Time Revenue Tracking''"
  have loc: "en_US 1000 = lit ''1,000''" "en_US 50 = lit ''50''" "en_US 10 = lit ''10''"
    by code_simp+
  have h: "generateDynamicTitle ?w 0 ?st ?title =
    Inr (lit ''Building Vaultittech: Real-Time Revenue Tracking | This video now has 1,000 views, 50 likes, 10 c...'')"
    by (simp add: generateDynamicTitle_def demo_world_def templates_def loc lit_def)
  have r: "0 \<le> math_random ?w 0 \<and> math_random ?w 0 < 1"
    by (simp add: demo_world_def)
  show ?thesis
    using h r generateDynamicTitle_length [of ?w 0 ?st ?title]
    by simp
qed

section \<open>Batch orchestrator: how a video and a batch come to a result\<close>

lemma processVideo_cases [consumes 1, case_names fetch_failed render_failed skipped update_failed updated]:
  assumes "processVideo fuel w vid title s = Some (s', pr)"
  obtains
    e where "getVideoStats w vid s = (s', Inl e)" and "pr = Failed vid (message e)"
  | st e where "getVideoStats w vid s = (s', Inr st)"
      and "generateDynamicTitle w (tick s') st title = Inl e"
      and "pr = Failed vid (message e)"
  | st cand where "getVideoStats w vid s = (s', Inr st)"
      and "generateDynamicTitle w (tick s') st title = Inr cand"
      and "currentTitle st = Some (JStr cand)"
      and "pr = Succeeded vid (currentTitle st) cand st"
  | s1 st cand e where "getVideoStats w vid s = (s1, Inr st)"
      and "generateDynamicTitle w (tick s1) st title = Inr cand"
      and "currentTitle st \<noteq> Some (JStr cand)"
      and "updateVideoTitle fuel w vid cand s1 = Some (s', Inl e)"
      and "pr = Failed vid (message e)"
  | s1 st cand ok where "getVideoStats w vid s = (s1, Inr st)"
      and "generateDynamicTitle w (tick s1) st title = Inr cand"
      and "currentTitle st \<noteq> Some (JStr cand)"
      and "updateVideoTitle fuel w vid cand s1 = Some (s', Inr ok)"
      and "pr = Succeeded vid (currentTitle st) cand st"
proof -
  obtain s1 r1 where g: "getVideoStats w vid s = (s1, r1)"
    by (cases "getVideoStats w vid s")
  show thesis
  proof (cases r1)
    case (Inl e)
    with g assms that(1) show thesis by (auto simp: processVideo_def)
  next
    case (Inr st)
    show thesis
    proof (cases "generateDynamicTitle w (tick s1) st title")
      case e: (Inl e)
      with g Inr assms that(2) show thesis by (auto simp: processVideo_def)
    next
      case c: (Inr cand)
      show thesis
      proof (cases "currentTitle st = Some (JStr cand)")
        case True
        with g Inr c assms that(3) show thesis by (auto simp: processVideo_def)
      next
        case False
        with g Inr c assms obtain r2 where
          u: "updateVideoTitle fuel w vid cand s1 = Some (s', r2)"
          by (auto simp: processVideo_def split: option.splits sum.splits)
        show thesis
        proof (cases r2)
          case (Inl e)
          with g Inr c False u assms that(4) show thesis by (auto simp: processVideo_def)
        next
          case ok: (Inr ok)
          with g Inr c False u assms that(5) show thesis by (auto simp: processVideo_def)
        qed
      qed
    qed
  qed
qed

lemma processVideo_videoId:
  assumes "processVideo fuel w vid title s = Some (s', pr)"
  shows "result_videoId pr = vid"
  using assms by (cases rule: processVideo_cases) simp_all

lemma processVideo_peak:
  assumes "processVideo fuel w vid title s = Some (s', pr)"
  shows "peakEngagement s \<le> peakEngagement s'"
  using assms
proof (cases rule: processVideo_cases)
  case (fetch_failed e)
  then show ?thesis using getVideoStats_peak [of w vid s s' "Inl e"] by simp
next
  case (render_failed st e)
  then show ?thesis using getVideoStats_peak [of w vid s s' "Inr st"] by simp
next
  case (skipped st cand)
  then show ?thesis using getVideoStats_peak [of w vid s s' "Inr st"] by simp
next
  case (update_failed s1 st cand e)
  then show ?thesis
    using getVideoStats_peak [of w vid s s1 "Inr st"]
      updateVideoTitle_frame [of fuel w vid cand s1 s' "Inl e"]
    by simp
next
  case (updated s1 st cand ok)
  then show ?thesis
    using getVideoStats_peak [of w vid s s1 "Inr st"]
      updateVideoTitle_frame [of fuel w vid cand s1 s' "Inr ok"]
    by simp
qed

lemma processVideo_trace:
  assumes "processVideo fuel w vid title s = Some (s', pr)"
  shows "\<exists>evs. trace s' = trace s @ VideosGet vid (lit ''statistics,snippet'') # evs \<and>
           list_all (update_event vid) evs"
proof -
  have direct: ?thesis if "getVideoStats w vid s = (s', r)" for r
    using getVideoStats_frame(1) [OF that] by simp
  have via: ?thesis
    if "getVideoStats w vid s = (s1, r)" and "updateVideoTitle fuel w vid cand s1 = Some (s', r')"
    for s1 r cand r'
  proof -
    from updateVideoTitle_continues [OF that(2)] obtain evs where
      "trace s' = trace s1 @ evs" "list_all (update_event vid) evs"
      by (auto simp: continues_def)
    with getVideoStats_frame(1) [OF that(1)] show ?thesis by simp
  qed
  from assms show ?thesis
    by (cases rule: processVideo_cases) (blast intro: direct via)+
qed


lemma dropWhile_update_events:
  assumes "list_all (update_event vid) evs0"
  shows "dropWhile (update_event vid) (evs0 @ Sleep ms # later) = Sleep ms # later"
    and "dropWhile (update_event vid) evs0 = []"
  using assms by (induction evs0) (simp_all add: update_event_def)

lemma sequential_Cons:
  assumes "list_all (update_event (videoId t)) evs0"
    and "sequential ts evs'"
  shows "sequential (t # ts)
           (VideosGet (videoId t) (lit ''statistics,snippet'') # evs0 @
              (if ts = [] then [] else [Sleep 2000]) @ evs')"
proof (cases "ts = []")
  case True
  with assms(2) have "evs' = []" by simp
  with True dropWhile_update_events(2) [OF assms(1)] show ?thesis by simp
next
  case False
  with assms(2) dropWhile_update_events(1) [OF assms(1), of 2000 evs'] show ?thesis by simp
qed




lemma batch_loop_invariant:
  assumes "batch_loop fuel w videos i results s = Some (s', rs)"
  shows "peakEngagement s \<le> peakEngagement s' \<and>
         (\<exists>new evs. rs = results @ new \<and>
            map result_videoId new = map videoId (drop i videos) \<and>
            trace s' = trace s @ evs \<and>
            sequential (drop i videos) evs)"
  using assms
proof (induction fuel w videos i results s rule: batch_loop.induct)
  case (1 fuel w videos i results s)
  show ?case
  proof (cases "i < length videos")
    case False
    with "1.prems" have "s' = s" "rs = results"
      by (simp_all add: batch_loop.simps)
    with False show ?thesis by simp
  next
    case True
    let ?t = "videos ! i"
    let ?get = "VideosGet (videoId ?t) (lit ''statistics,snippet'')"
    from True "1.prems" obtain s1 pr where
      pv: "processVideo fuel w (videoId ?t) (originalTitle ?t) s = Some (s1, pr)"
      by (subst (asm) batch_loop.simps) (auto split: option.splits)
    let ?s2 = "if int i < int (length videos) - 1 then emit (Sleep 2000) s1 else s1"
    from True pv "1.prems" have
      rec: "batch_loop fuel w videos (i + 1) (results @ [pr]) ?s2 = Some (s', rs)"
      by (subst (asm) batch_loop.simps) simp
    from "1.IH" [OF True pv refl rec] obtain new' evs' where ih:
      "peakEngagement ?s2 \<le> peakEngagement s'"
      "rs = (results @ [pr]) @ new'"
      "map result_videoId new' = map videoId (drop (i + 1) videos)"
      "trace s' = trace ?s2 @ evs'"
      "sequential (drop (i + 1) videos) evs'"
      by blast
    from processVideo_trace [OF pv] obtain evs0 where evs0:
      "trace s1 = trace s @ ?get # evs0" "list_all (update_event (videoId ?t)) evs0"
      by blast
    have drop: "drop i videos = ?t # drop (i + 1) videos"
      using True by (simp add: Cons_nth_drop_Suc)
    have peak: "peakEngagement s \<le> peakEngagement s'"
      using processVideo_peak [OF pv] ih(1) by (simp split: if_splits)
    have ids: "map result_videoId (pr # new') = map videoId (drop i videos)"
      using processVideo_videoId [OF pv] ih(3) drop by simp
    let ?pause = "if int i < int (length videos) - 1 then [Sleep 2000] else []"
    have tr: "trace s' = trace s @ (?get # evs0 @ ?pause @ evs')"
      using ih(4) evs0(1) by simp
    have last: "(drop (i + 1) videos = []) = (\<not> int i < int (length videos) - 1)"
      using True by auto
    have "(if drop (i + 1) videos = [] then [] else [Sleep 2000]) = ?pause"
      using last by simp
    then have pc: "sequential (drop i videos) (?get # evs0 @ ?pause @ evs')"
      using sequential_Cons [OF evs0(2) ih(5)] drop by simp
    have "rs = results @ (pr # new')"
      using ih(2) by simp
    with ids tr pc have "\<exists>new evs. rs = results @ new \<and>
            map result_videoId new = map videoId (drop i videos) \<and>
            trace s' = trace s @ evs \<and>
            sequential (drop i videos) evs"
      by blast
    with peak show ?thesis by simp
  qed
qed


section \<open>Update executor: counters and payload\<close>

lemma updateVideoTitle_fuel_mono:
  assumes "updateVideoTitle fuel w vid t s = Some x"
  shows "updateVideoTitle (fuel + k) w vid t s = Some x"
  using assms
proof (induction fuel arbitrary: s)
  case 0
  then show ?case by simp
next
  case (Suc fuel)
  then show ?case
    by (auto split: prod.splits sum.splits if_splits)
qed

lemmas run_defs = ensureValidAccessToken_def needs_refresh_def refreshAccessToken_def
  falsy_string_def falsy_number_def constructor_def demo_world_def demo_item_def demo_payload_def
  with_token_def update_events_def after_rejected_def after_accepted_def emit_def tick_def update_attempt_def snippet_literal_def stringify_def spread_def
  http_error_def response_status_def Let_def lit_def

lemma run_forbidden:
  "updateVideoTitle 3 (demo_world (lit ''Demo'') (\<lambda>n. PutErr (http_error 403)))
     (lit ''vidA'') (lit ''New'') constructor = Some (after_rejected, Inl (http_error 403))"
  by (simp add: run_defs numeral_3_eq_3)

lemma run_accepted:
  "updateVideoTitle 3 (demo_world (lit ''Demo'') (\<lambda>n. PutOk))
     (lit ''vidA'') (lit ''New'') constructor = Some (after_accepted, Inr True)"
  by (simp add: run_defs numeral_3_eq_3)

text \<open>
  C10. When \<open>updateVideoTitle\<close> fails, whatever the reason, \<open>updatesPerformed\<close>
  and \<open>lastUpdate\<close> are as they were before the call. When it succeeds, the
  counter is one higher, and the last interaction before the timestamp was
  taken is a write that the platform accepted.
\<close>

theorem updateVideoTitle_counters:
  "(updateVideoTitle fuel w vid t s = Some (s', Inl e) \<longrightarrow>
      updatesPerformed s' = updatesPerformed s \<and> lastUpdate s' = lastUpdate s) \<and>
   (updateVideoTitle fuel w vid t s = Some (s', Inr ok) \<longrightarrow>
      updatesPerformed s' = updatesPerformed s + 1 \<and>
      (\<exists>pre payload tok. trace s' = pre @ [VideosPut vid payload tok] \<and>
         videos_put w (length pre) = PutOk \<and>
         lastUpdate s' = Some (date_iso w (Suc (length pre)))))"
proof -
  have failure: "updatesPerformed s' = updatesPerformed s \<and> lastUpdate s' = lastUpdate s"
    if "updateVideoTitle fuel w vid t s = Some (s', Inl e)"
    using updateVideoTitle_failure [OF that] by simp
  have success: "updatesPerformed s' = updatesPerformed s + 1 \<and>
      (\<exists>pre payload tok. trace s' = pre @ [VideosPut vid payload tok] \<and>
         videos_put w (length pre) = PutOk \<and>
         lastUpdate s' = Some (date_iso w (Suc (length pre))))"
    if ok: "updateVideoTitle fuel w vid t s = Some (s', Inr ok)"
  proof -
    from updateVideoTitle_success [OF ok] obtain pre snip tok where a:
      "trace s' = pre @ [VideosGet vid (lit ''snippet''),
         VideosPut vid (AList.update (lit ''title'') (JStr t) snip) tok]"
      "videos_put w (Suc (length pre)) = PutOk"
      "updatesPerformed s' = updatesPerformed s + 1"
      "lastUpdate s' = Some (date_iso w (length pre + 2))"
      by blast
    let ?pre = "pre @ [VideosGet vid (lit ''snippet'')]"
    have "trace s' = ?pre @ [VideosPut vid (AList.update (lit ''title'') (JStr t) snip) tok] \<and>
           videos_put w (length ?pre) = PutOk \<and>
           lastUpdate s' = Some (date_iso w (Suc (length ?pre)))"
      using a by simp
    then have "\<exists>pre payload tok. trace s' = pre @ [VideosPut vid payload tok] \<and>
           videos_put w (length pre) = PutOk \<and>
           lastUpdate s' = Some (date_iso w (Suc (length pre)))"
      by blast
    with a(3) show ?thesis by simp
  qed
  from failure success show ?thesis by blast
qed

theorem updateVideoTitle_counters_witness:
  "updateVideoTitle 3 (demo_world (lit ''Demo'') (\<lambda>n. PutErr (http_error 403)))
     (lit ''vidA'') (lit ''New'') constructor = Some (after_rejected, Inl (http_error 403)) \<and>
   updatesPerformed after_rejected = updatesPerformed constructor \<and>
   lastUpdate after_rejected = lastUpdate constructor \<and>
   updateVideoTitle 3 (demo_world (lit ''Demo'') (\<lambda>n. PutOk))
     (lit ''vidA'') (lit ''New'') constructor = Some (after_accepted, Inr True) \<and>
   updatesPerformed after_accepted = updatesPerformed constructor + 1"
  using run_forbidden run_accepted
    updateVideoTitle_counters [of 3 "demo_world (lit ''Demo'') (\<lambda>n. PutErr (http_error 403))"
      "lit ''vidA''" "lit ''New''" constructor after_rejected "http_error 403"]
    updateVideoTitle_counters [of 3 "demo_world (lit ''Demo'') (\<lambda>n. PutOk)"
      "lit ''vidA''" "lit ''New''" constructor after_accepted _ True]
  by simp

text \<open>
  C9. When \<open>updateVideoTitle\<close> succeeds, its last two interactions are the
  re-fetch of the snippet and the write, and the snippet in the body of the
  write is the re-fetched snippet with \<open>title\<close> set to the new title: every
  other property of the re-fetched snippet is sent with the value it had, and no
  property is added besides \<open>title\<close>.
\<close>

theorem updateVideoTitle_payload:
  assumes "updateVideoTitle fuel w vid t s = Some (s', Inr ok)"
  shows "\<exists>pre video rest snip payload tok.
           trace s' = pre @ [VideosGet vid (lit ''snippet''), VideosPut vid payload tok] \<and>
           videos_get w (length pre) = GetOk (Some (video # rest)) \<and>
           item_snippet video = Some snip \<and>
           videos_put w (Suc (length pre)) = PutOk \<and>
           payload = AList.update (lit ''title'') (JStr t) snip \<and>
           map_of payload (lit ''title'') = Some (JStr t) \<and>
           (\<forall>k. k \<noteq> lit ''title'' \<longrightarrow> map_of payload k = map_of snip k) \<and>
           fst ` set payload = insert (lit ''title'') (fst ` set snip)"
proof -
  from updateVideoTitle_success [OF assms] obtain pre video rest snip tok where a:
    "trace s' = pre @ [VideosGet vid (lit ''snippet''),
       VideosPut vid (AList.update (lit ''title'') (JStr t) snip) tok]"
    "videos_get w (length pre) = GetOk (Some (video # rest))"
    "item_snippet video = Some snip"
    "videos_put w (Suc (length pre)) = PutOk"
    by blast
  let ?payload = "AList.update (lit ''title'') (JStr t) snip"
  have b: "map_of ?payload (lit ''title'') = Some (JStr t)"
    "\<forall>k. k \<noteq> lit ''title'' \<longrightarrow> map_of ?payload k = map_of snip k"
    "fst ` set ?payload = insert (lit ''title'') (fst ` set snip)"
    by (simp_all add: update_conv' dom_update)
  show ?thesis
    apply (rule exI [of _ pre], rule exI [of _ video], rule exI [of _ rest],
        rule exI [of _ snip], rule exI [of _ ?payload], rule exI [of _ tok])
    using a b by - (intro conjI, (assumption | rule refl)+)
qed

theorem updateVideoTitle_payload_witness:
  "updateVideoTitle 3 (demo_world (lit ''Demo'') (\<lambda>n. PutOk))
     (lit ''vidA'') (lit ''New'') constructor = Some (after_accepted, Inr True) \<and>
   (\<exists>pre video rest snip payload tok.
      trace after_accepted =
        pre @ [VideosGet (lit ''vidA'') (lit ''snippet''), VideosPut (lit ''vidA'') payload tok] \<and>
      videos_get (demo_world (lit ''Demo'') (\<lambda>n. PutOk)) (length pre) =
        GetOk (Some (video # rest)) \<and>
      item_snippet video = Some snip \<and>
      videos_put (demo_world (lit ''Demo'') (\<lambda>n. PutOk)) (Suc (length pre)) = PutOk \<and>
      payload = AList.update (lit ''title'') (JStr (lit ''New'')) snip \<and>
      map_of payload (lit ''title'') = Some (JStr (lit ''New'')) \<and>
      (\<forall>k. k \<noteq> lit ''title'' \<longrightarrow> map_of payload k = map_of snip k) \<and>
      fst ` set payload = insert (lit ''title'') (fst ` set snip)) \<and>
   item_snippet (demo_item (lit ''Demo'')) =
     Some [(lit ''title'', JStr (lit ''Demo'')), (lit ''description'', JStr (lit ''about'')),
           (lit ''categoryId'', JStr (lit ''22''))] \<and>
   trace after_accepted =
     [TokenPost, VideosGet (lit ''vidA'') (lit ''snippet''),
      VideosPut (lit ''vidA'')
        [(lit ''title'', JStr (lit ''New'')), (lit ''description'', JStr (lit ''about'')),
         (lit ''categoryId'', JStr (lit ''22''))] (Some (lit ''ya29.token''))]"
proof (intro conjI)
  show "updateVideoTitle 3 (demo_world (lit ''Demo'') (\<lambda>n. PutOk))
     (lit ''vidA'') (lit ''New'') constructor = Some (after_accepted, Inr True)"
    by (rule run_accepted)
  then show "\<exists>pre video rest snip payload tok.
      trace after_accepted =
        pre @ [VideosGet (lit ''vidA'') (lit ''snippet''), VideosPut (lit ''vidA'') payload tok] \<and>
      videos_get (demo_world (lit ''Demo'') (\<lambda>n. PutOk)) (length pre) =
        GetOk (Some (video # rest)) \<and>
      item_snippet video = Some snip \<and>
      videos_put (demo_world (lit ''Demo'') (\<lambda>n. PutOk)) (Suc (length pre)) = PutOk \<and>
      payload = AList.update (lit ''title'') (JStr (lit ''New'')) snip \<and>
      map_of payload (lit ''title'') = Some (JStr (lit ''New'')) \<and>
      (\<forall>k. k \<noteq> lit ''title'' \<longrightarrow> map_of payload k = map_of snip k) \<and>
      fst ` set payload = insert (lit ''title'') (fst ` set snip)"
    by (rule updateVideoTitle_payload)
  show "item_snippet (demo_item (lit ''Demo'')) =
     Some [(lit ''title'', JStr (lit ''Demo'')), (lit ''description'', JStr (lit ''about'')),
           (lit ''categoryId'', JStr (lit ''22''))]"
    by (simp add: demo_item_def)
  show "trace after_accepted =
     [TokenPost, VideosGet (lit ''vidA'') (lit ''snippet''),
      VideosPut (lit ''vidA'')
        [(lit ''title'', JStr (lit ''New'')), (lit ''description'', JStr (lit ''about'')),
         (lit ''categoryId'', JStr (lit ''22''))] (Some (lit ''ya29.token''))]"
    by (simp add: after_accepted_def with_token_def update_events_def demo_payload_def)
qed

section \<open>Runs on the concrete platforms\<close>

lemma en_US_demo: "en_US 1000 = lit ''1,000''" "en_US 50 = lit ''50''" "en_US 10 = lit ''10''"
  by code_simp+

lemma fetch_demo:
  "getVideoStats (demo_world title puts) (lit ''vidA'') constructor =
     (after_fetch, Inr (demo_stats title))"
  by (simp add: getVideoStats_def demo_world_def demo_item_def constructor_def tick_def
      emit_def or_zero_def parseInt_def ratio_demo lit_def Let_def after_fetch_def demo_stats_def)

lemma render_demo:
  "generateDynamicTitle (demo_world title puts) n (demo_stats title) (lit ''Demo'') =
     Inr rendered_demo"
  by (simp add: generateDynamicTitle_def demo_world_def templates_def en_US_demo demo_stats_def
      rendered_demo_def lit_def)

lemma skip_demo:
  "processVideo fuel (demo_world rendered_demo puts) (lit ''vidA'') (lit ''Demo'') constructor =
     Some (after_fetch,
       Succeeded (lit ''vidA'') (Some (JStr rendered_demo)) rendered_demo (demo_stats rendered_demo))"
  by (simp add: processVideo_def fetch_demo render_demo) (simp add: demo_stats_def)

lemmas batch_defs = processMultipleVideos_def batch_loop.simps demo_tasks_def processVideo_def
  getVideoStats_def generateDynamicTitle_def templates_def en_US_demo
  or_zero_def parseInt_def ratio_demo demo_stats_def rendered_demo_def run_defs

section \<open>Run statistics: the peak of engagement\<close>

text \<open>
  C8. \<open>peakEngagement\<close> never decreases. The stats fetcher is the only operation
  that writes it: a successful fetch sets it to the maximum of its value and
  \<open>likes + comments\<close> of the fetched video, a failed fetch leaves it as it was.
  The token manager and the update executor leave it as it was, so across the
  processing of a video and of a batch it can only grow.
\<close>

theorem peakEngagement_monotone:
  "peakEngagement (fst (getVideoStats w vid s)) =
     (case snd (getVideoStats w vid s) of
        Inl e \<Rightarrow> peakEngagement s
      | Inr st \<Rightarrow> max (peakEngagement s) (likes st + comments st)) \<and>
   peakEngagement (fst (refreshAccessToken w s)) = peakEngagement s \<and>
   peakEngagement (fst (ensureValidAccessToken w s)) = peakEngagement s \<and>
   (case updateVideoTitle fuel w vid t s of
      None \<Rightarrow> True | Some (s', r) \<Rightarrow> peakEngagement s' = peakEngagement s) \<and>
   (case processVideo fuel w vid t s of
      None \<Rightarrow> True | Some (s', r) \<Rightarrow> peakEngagement s \<le> peakEngagement s') \<and>
   (case processMultipleVideos fuel w videos s of
      None \<Rightarrow> True | Some (s', rs) \<Rightarrow> peakEngagement s \<le> peakEngagement s')"
proof (intro conjI)
  show "peakEngagement (fst (getVideoStats w vid s)) =
     (case snd (getVideoStats w vid s) of
        Inl e \<Rightarrow> peakEngagement s
      | Inr st \<Rightarrow> max (peakEngagement s) (likes st + comments st))"
    by (rule getVideoStats_peak [of w vid s]) simp
  show "peakEngagement (fst (refreshAccessToken w s)) = peakEngagement s"
    by (rule refresh_frame(4) [of w s _ "snd (refreshAccessToken w s)"]) simp
  show "peakEngagement (fst (ensureValidAccessToken w s)) = peakEngagement s"
    by (rule ensure_frame(4) [of w s _ "snd (ensureValidAccessToken w s)"]) simp
  show "case updateVideoTitle fuel w vid t s of
      None \<Rightarrow> True | Some (s', r) \<Rightarrow> peakEngagement s' = peakEngagement s"
    using updateVideoTitle_frame [of fuel w vid t s]
    by (auto split: option.splits)
  show "case processVideo fuel w vid t s of
      None \<Rightarrow> True | Some (s', r) \<Rightarrow> peakEngagement s \<le> peakEngagement s'"
    using processVideo_peak [of fuel w vid t s]
    by (auto split: option.splits)
  show "case processMultipleVideos fuel w videos s of
      None \<Rightarrow> True | Some (s', rs) \<Rightarrow> peakEngagement s \<le> peakEngagement s'"
    using batch_loop_invariant [of fuel w videos 0 "[]" s]
    by (auto simp: processMultipleVideos_def split: option.splits)
qed

theorem peakEngagement_monotone_witness:
  "processVideo 1 (demo_world rendered_demo (\<lambda>n. PutOk)) (lit ''vidA'') (lit ''Demo'') constructor =
     Some (after_fetch,
       Succeeded (lit ''vidA'') (Some (JStr rendered_demo)) rendered_demo (demo_stats rendered_demo)) \<and>
   peakEngagement constructor = 0 \<and> peakEngagement after_fetch = 60 \<and>
   peakEngagement constructor \<le> peakEngagement after_fetch \<and>
   peakEngagement after_fetch =
     max (peakEngagement constructor)
       (likes (demo_stats rendered_demo) + comments (demo_stats rendered_demo))"
  using skip_demo [of 1 "\<lambda>n. PutOk"] fetch_demo [of rendered_demo "\<lambda>n. PutOk"]
    peakEngagement_monotone [of "demo_world rendered_demo (\<lambda>n. PutOk)" "lit ''vidA''"
      constructor 1 "lit ''Demo''" demo_tasks]
  by (simp add: after_fetch_def constructor_def demo_stats_def)

section \<open>Batch orchestrator: the decision to write\<close>

text \<open>
  C3. Let the fetch of the stats and the rendering of the candidate succeed. If
  the candidate is the platform's current title, \<open>processVideo\<close> makes no
  further interaction (the statistics read is the only one, so no write is
  made) and returns a success result whose \<open>newTitle\<close> is its \<open>oldTitle\<close>.
  Otherwise it calls \<open>updateVideoTitle\<close> with the candidate and reports its
  outcome: a success result when the update returned, a failure result with the
  message of the error when the update threw.
\<close>

theorem processVideo_write_decision:
  assumes "getVideoStats w vid s = (s1, Inr st)"
    and "generateDynamicTitle w (tick s1) st title = Inr cand"
  shows "(currentTitle st = Some (JStr cand) \<longrightarrow>
            (\<exists>pr. processVideo fuel w vid title s = Some (s1, pr) \<and> success pr \<and>
               newTitle pr = cand \<and> oldTitle pr = Some (JStr (newTitle pr))) \<and>
            trace s1 = trace s @ [VideosGet vid (lit ''statistics,snippet'')] \<and>
            write_calls (trace s1) = write_calls (trace s)) \<and>
         (currentTitle st \<noteq> Some (JStr cand) \<longrightarrow>
            processVideo fuel w vid title s =
              (case updateVideoTitle fuel w vid cand s1 of
                 None \<Rightarrow> None
               | Some (s2, Inl e) \<Rightarrow> Some (s2, Failed vid (message e))
               | Some (s2, Inr ok) \<Rightarrow> Some (s2, Succeeded vid (currentTitle st) cand st)))"
proof (intro conjI impI)
  assume same: "currentTitle st = Some (JStr cand)"
  have "processVideo fuel w vid title s = Some (s1, Succeeded vid (currentTitle st) cand st)"
    using assms same by (simp add: processVideo_def)
  then show "\<exists>pr. processVideo fuel w vid title s = Some (s1, pr) \<and> success pr \<and>
               newTitle pr = cand \<and> oldTitle pr = Some (JStr (newTitle pr))"
    using same by (simp add: success_def)
  show tr: "trace s1 = trace s @ [VideosGet vid (lit ''statistics,snippet'')]"
    using getVideoStats_frame(1) [OF assms(1)] .
  show "write_calls (trace s1) = write_calls (trace s)"
    by (simp add: tr write_calls_def)
next
  assume "currentTitle st \<noteq> Some (JStr cand)"
  then show "processVideo fuel w vid title s =
              (case updateVideoTitle fuel w vid cand s1 of
                 None \<Rightarrow> None
               | Some (s2, Inl e) \<Rightarrow> Some (s2, Failed vid (message e))
               | Some (s2, Inr ok) \<Rightarrow> Some (s2, Succeeded vid (currentTitle st) cand st))"
    using assms by (simp add: processVideo_def)
qed

theorem processVideo_write_decision_witness:
  "getVideoStats (demo_world rendered_demo (\<lambda>n. PutOk)) (lit ''vidA'') constructor =
     (after_fetch, Inr (demo_stats rendered_demo)) \<and>
   generateDynamicTitle (demo_world rendered_demo (\<lambda>n. PutOk)) (tick after_fetch)
     (demo_stats rendered_demo) (lit ''Demo'') = Inr rendered_demo \<and>
   currentTitle (demo_stats rendered_demo) = Some (JStr rendered_demo) \<and>
   processVideo 1 (demo_world rendered_demo (\<lambda>n. PutOk)) (lit ''vidA'') (lit ''Demo'') constructor =
     Some (after_fetch,
       Succeeded (lit ''vidA'') (Some (JStr rendered_demo)) rendered_demo (demo_stats rendered_demo)) \<and>
   write_calls (trace after_fetch) = write_calls (trace constructor) \<and>
   getVideoStats (demo_world (lit ''Demo'') (\<lambda>n. PutOk)) (lit ''vidA'') constructor =
     (after_fetch, Inr (demo_stats (lit ''Demo''))) \<and>
   generateDynamicTitle (demo_world (lit ''Demo'') (\<lambda>n. PutOk)) (tick after_fetch)
     (demo_stats (lit ''Demo'')) (lit ''Demo'') = Inr rendered_demo \<and>
   currentTitle (demo_stats (lit ''Demo'')) \<noteq> Some (JStr rendered_demo) \<and>
   processVideo 1 (demo_world (lit ''Demo'') (\<lambda>n. PutOk)) (lit ''vidA'') (lit ''Demo'') constructor =
     (case updateVideoTitle 1 (demo_world (lit ''Demo'') (\<lambda>n. PutOk)) (lit ''vidA'') rendered_demo
             after_fetch of
        None \<Rightarrow> None
      | Some (s2, Inl e) \<Rightarrow> Some (s2, Failed (lit ''vidA'') (message e))
      | Some (s2, Inr ok) \<Rightarrow>
          Some (s2, Succeeded (lit ''vidA'') (currentTitle (demo_stats (lit ''Demo''))) rendered_demo
                      (demo_stats (lit ''Demo'')))) \<and>
   map_option (\<lambda>(s2, pr). (write_calls (trace s2), success pr))
     (processVideo 1 (demo_world (lit ''Demo'') (\<lambda>n. PutOk)) (lit ''vidA'') (lit ''Demo'')
        constructor) = Some (1, True)"
proof -
  have C: "map_option (\<lambda>(s2, pr). (write_calls (trace s2), success pr))
     (processVideo 1 (demo_world (lit ''Demo'') (\<lambda>n. PutOk)) (lit ''vidA'') (lit ''Demo'')
        constructor) = Some (1, True)"
    by (simp add: batch_defs write_calls_def success_def)
  have differ: "currentTitle (demo_stats (lit ''Demo'')) \<noteq> Some (JStr rendered_demo)"
    by (simp add: demo_stats_def rendered_demo_def lit_def)
  have same: "currentTitle (demo_stats rendered_demo) = Some (JStr rendered_demo)"
    by (simp add: demo_stats_def)
  note skip = processVideo_write_decision [
      OF fetch_demo [of rendered_demo "\<lambda>n. PutOk"]
         render_demo [of rendered_demo "\<lambda>n. PutOk" "tick after_fetch"], of 1]
  note wr = processVideo_write_decision [
      OF fetch_demo [of "lit ''Demo''" "\<lambda>n. PutOk"]
         render_demo [of "lit ''Demo''" "\<lambda>n. PutOk" "tick after_fetch"], of 1]
  have A: "write_calls (trace after_fetch) = write_calls (trace constructor)"
    using skip same by blast
  have B: "processVideo 1 (demo_world (lit ''Demo'') (\<lambda>n. PutOk)) (lit ''vidA'') (lit ''Demo'') constructor =
     (case updateVideoTitle 1 (demo_world (lit ''Demo'') (\<lambda>n. PutOk)) (lit ''vidA'') rendered_demo
             after_fetch of
        None \<Rightarrow> None
      | Some (s2, Inl e) \<Rightarrow> Some (s2, Failed (lit ''vidA'') (message e))
      | Some (s2, Inr ok) \<Rightarrow>
          Some (s2, Succeeded (lit ''vidA'') (currentTitle (demo_stats (lit ''Demo''))) rendered_demo
                      (demo_stats (lit ''Demo''))))"
    using wr differ by blast
  show ?thesis
    by (intro conjI) (rule fetch_demo render_demo same skip_demo A differ B C)+
qed

section \<open>Batch orchestrator: sequencing and error isolation\<close>













section \<open>Update executor: the retry after an authentication failure\<close>

lemma run_two_401:
  "updateVideoTitle 3 (demo_world (lit ''Demo'') twice_401) (lit ''vidA'') (lit ''New'') constructor =
     Some (after_two_401, Inr True)"
  by (simp add: run_defs twice_401_def after_two_401_def numeral_3_eq_3)

text \<open>
  C1 fails as it is stated. On a platform that answers the first two
  writes with 401 and accepts the third, \<open>updateVideoTitle\<close> does not surface
  the second authentication failure: it refreshes the token again, makes a third
  attempt, and returns \<open>true\<close>. The record shows three writes and three token
  refreshes (one by \<open>ensureValidAccessToken\<close>, two forced).
\<close>

theorem updateVideoTitle_single_retry_counterexample:
  "videos_put (demo_world (lit ''Demo'') twice_401) 2 = PutErr (http_error 401) \<and>
   videos_put (demo_world (lit ''Demo'') twice_401) 5 = PutErr (http_error 401) \<and>
   response_status (http_error 401) = Some 401 \<and>
   updateVideoTitle 3 (demo_world (lit ''Demo'') twice_401) (lit ''vidA'') (lit ''New'') constructor =
     Some (after_two_401, Inr True) \<and>
   write_calls (trace after_two_401) = 3 \<and>
   refresh_calls (trace after_two_401) = 3"
proof (intro conjI)
  show "updateVideoTitle 3 (demo_world (lit ''Demo'') twice_401) (lit ''vidA'') (lit ''New'')
      constructor = Some (after_two_401, Inr True)"
    by (rule run_two_401)
qed (simp_all add: demo_world_def twice_401_def http_error_def response_status_def
    after_two_401_def update_events_def write_calls_def refresh_calls_def)

lemma retry_step:
  assumes "ensureValidAccessToken w s = (s1, Inr u)"
    and "update_attempt w vid t s1 = (s2, Inl err)"
    and "response_status err = Some 401"
  shows "\<exists>s3 r3. refreshAccessToken w s2 = (s3, r3) \<and> trace s3 = trace s2 @ [TokenPost] \<and>
           (case r3 of
              Inl e \<Rightarrow> updateVideoTitle (Suc fuel) w vid t s = Some (s3, Inl e)
            | Inr _ \<Rightarrow> updateVideoTitle (Suc fuel) w vid t s = updateVideoTitle fuel w vid t s3)"
proof -
  obtain s3 r3 where ref: "refreshAccessToken w s2 = (s3, r3)"
    by (cases "refreshAccessToken w s2")
  have "case r3 of
              Inl e \<Rightarrow> updateVideoTitle (Suc fuel) w vid t s = Some (s3, Inl e)
            | Inr _ \<Rightarrow> updateVideoTitle (Suc fuel) w vid t s = updateVideoTitle fuel w vid t s3"
    using assms ref by (cases r3) simp_all
  with ref refresh_frame(1) [OF ref] show ?thesis by blast
qed

lemma no_retry_step:
  assumes "ensureValidAccessToken w s = (s1, Inr u)"
    and "update_attempt w vid t s1 = (s2, Inl err)"
    and "response_status err \<noteq> Some 401"
  shows "updateVideoTitle (Suc fuel) w vid t s = Some (s2, Inl err)"
  using assms by simp

lemma retries_forever:
  assumes tok: "\<forall>n. \<exists>access_token expires_in. token_endpoint w n = TokenOk access_token expires_in"
    and get: "\<forall>n. \<exists>video rest snip.
                videos_get w n = GetOk (Some (video # rest)) \<and> item_snippet video = Some snip"
    and put: "\<forall>n. \<exists>e. videos_put w n = PutErr e \<and> response_status e = Some 401"
  shows "updateVideoTitle fuel w vid t s = None"
proof (induction fuel arbitrary: s)
  case 0
  show ?case by simp
next
  case (Suc fuel)
  have refresh: "\<exists>b. refreshAccessToken w a = (b, Inr ())" for a
    using tok [rule_format, of "tick a"]
    by (auto simp: refreshAccessToken_def Let_def)
  then have "\<exists>b. ensureValidAccessToken w s = (b, Inr ())"
    by (simp add: ensureValidAccessToken_def)
  then obtain s1 where ens: "ensureValidAccessToken w s = (s1, Inr ())"
    by blast
  from get [rule_format, of "tick s1"] obtain video rest snip where
    g: "videos_get w (tick s1) = GetOk (Some (video # rest))" "item_snippet video = Some snip"
    by blast
  from put [rule_format, of "Suc (tick s1)"] obtain e where
    p: "videos_put w (Suc (tick s1)) = PutErr e" "response_status e = Some 401"
    by blast
  from g p(1) obtain s2 where att: "update_attempt w vid t s1 = (s2, Inl e)"
    by (simp add: update_attempt_def Let_def)
  from refresh obtain s3 where ref: "refreshAccessToken w s2 = (s3, Inr ())"
    by blast
  from ens att p(2) ref Suc.IH [of s3] show ?case
    by simp
qed

text \<open>
  C1, amended. Whenever an attempt of \<open>updateVideoTitle\<close> (the re-fetch or the
  write) fails with status 401, exactly one token refresh is forced; when the
  refresh fails its error is thrown, and when it succeeds the whole operation
  is run again from the refreshed state, under the same rule, with no bound on
  the number of attempts. An attempt that fails with any other error is thrown
  at once. So an error that \<open>updateVideoTitle\<close> throws never is a 401 of the
  re-fetch or of the write: its status is not 401, or it is the error of a token
  refresh made during the call. On a platform that answers every write with 401
  while the token endpoint and the re-fetch keep succeeding, the call does not
  return, however many attempts are allowed.
\<close>

theorem updateVideoTitle_auth_retry:
  "(\<forall>s1 u s2 err. ensureValidAccessToken w s = (s1, Inr u) \<and>
      update_attempt w vid t s1 = (s2, Inl err) \<and> response_status err = Some 401 \<longrightarrow>
      (\<exists>s3 r3. refreshAccessToken w s2 = (s3, r3) \<and> trace s3 = trace s2 @ [TokenPost] \<and>
         (case r3 of
            Inl e \<Rightarrow> updateVideoTitle (Suc fuel) w vid t s = Some (s3, Inl e)
          | Inr _ \<Rightarrow> updateVideoTitle (Suc fuel) w vid t s = updateVideoTitle fuel w vid t s3))) \<and>
   (\<forall>s1 u s2 err. ensureValidAccessToken w s = (s1, Inr u) \<and>
      update_attempt w vid t s1 = (s2, Inl err) \<and> response_status err \<noteq> Some 401 \<longrightarrow>
      updateVideoTitle (Suc fuel) w vid t s = Some (s2, Inl err)) \<and>
   (\<forall>s' e. updateVideoTitle fuel w vid t s = Some (s', Inl e) \<longrightarrow>
      response_status e \<noteq> Some 401 \<or>
      (\<exists>n. tick s \<le> n \<and> n < tick s' \<and> token_endpoint w n = TokenErr e)) \<and>
   ((\<forall>n. \<exists>access_token expires_in. token_endpoint w n = TokenOk access_token expires_in) \<and>
    (\<forall>n. \<exists>video rest snip.
       videos_get w n = GetOk (Some (video # rest)) \<and> item_snippet video = Some snip) \<and>
    (\<forall>n. \<exists>e. videos_put w n = PutErr e \<and> response_status e = Some 401) \<longrightarrow>
    updateVideoTitle fuel w vid t s = None)"
proof (intro conjI allI impI)
  fix s1 u s2 err
  assume "ensureValidAccessToken w s = (s1, Inr u) \<and>
      update_attempt w vid t s1 = (s2, Inl err) \<and> response_status err = Some 401"
  then show "\<exists>s3 r3. refreshAccessToken w s2 = (s3, r3) \<and> trace s3 = trace s2 @ [TokenPost] \<and>
         (case r3 of
            Inl e \<Rightarrow> updateVideoTitle (Suc fuel) w vid t s = Some (s3, Inl e)
          | Inr _ \<Rightarrow> updateVideoTitle (Suc fuel) w vid t s = updateVideoTitle fuel w vid t s3)"
    using retry_step by blast
next
  fix s1 u s2 err
  assume "ensureValidAccessToken w s = (s1, Inr u) \<and>
      update_attempt w vid t s1 = (s2, Inl err) \<and> response_status err \<noteq> Some 401"
  then show "updateVideoTitle (Suc fuel) w vid t s = Some (s2, Inl err)"
    using no_retry_step by blast
next
  fix s' e
  assume "updateVideoTitle fuel w vid t s = Some (s', Inl e)"
  from updateVideoTitle_failure [OF this]
  show "response_status e \<noteq> Some 401 \<or>
      (\<exists>n. tick s \<le> n \<and> n < tick s' \<and> token_endpoint w n = TokenErr e)"
    by blast
next
  assume "(\<forall>n. \<exists>access_token expires_in. token_endpoint w n = TokenOk access_token expires_in) \<and>
    (\<forall>n. \<exists>video rest snip.
       videos_get w n = GetOk (Some (video # rest)) \<and> item_snippet video = Some snip) \<and>
    (\<forall>n. \<exists>e. videos_put w n = PutErr e \<and> response_status e = Some 401)"
  then show "updateVideoTitle fuel w vid t s = None"
    using retries_forever by blast
qed
lemma ensure_demo:
  "ensureValidAccessToken (demo_world title puts) constructor =
     (with_token\<lparr>trace := [TokenPost]\<rparr>, Inr ())"
  by (simp add: run_defs)

lemma attempt_rejected_demo:
  "puts 2 = PutErr e \<Longrightarrow>
   update_attempt (demo_world title puts) (lit ''vidA'') (lit ''New'')
     (with_token\<lparr>trace := [TokenPost]\<rparr>) = (after_rejected, Inl e)"
  by (simp add: run_defs numeral_2_eq_2)

theorem updateVideoTitle_auth_retry_witness:
  "ensureValidAccessToken (demo_world (lit ''Demo'') twice_401) constructor =
     (with_token\<lparr>trace := [TokenPost]\<rparr>, Inr ()) \<and>
   update_attempt (demo_world (lit ''Demo'') twice_401) (lit ''vidA'') (lit ''New'')
     (with_token\<lparr>trace := [TokenPost]\<rparr>) = (after_rejected, Inl (http_error 401)) \<and>
   response_status (http_error 401) = Some 401 \<and>
   (\<exists>s3 r3. refreshAccessToken (demo_world (lit ''Demo'') twice_401) after_rejected = (s3, r3) \<and>
      trace s3 = trace after_rejected @ [TokenPost] \<and>
      (case r3 of
         Inl e \<Rightarrow> updateVideoTitle (Suc 2) (demo_world (lit ''Demo'') twice_401) (lit ''vidA'')
                    (lit ''New'') constructor = Some (s3, Inl e)
       | Inr _ \<Rightarrow> updateVideoTitle (Suc 2) (demo_world (lit ''Demo'') twice_401) (lit ''vidA'')
                    (lit ''New'') constructor =
                  updateVideoTitle 2 (demo_world (lit ''Demo'') twice_401) (lit ''vidA'')
                    (lit ''New'') s3)) \<and>
   update_attempt (demo_world (lit ''Demo'') (\<lambda>n. PutErr (http_error 403))) (lit ''vidA'') (lit ''New'')
     (with_token\<lparr>trace := [TokenPost]\<rparr>) = (after_rejected, Inl (http_error 403)) \<and>
   response_status (http_error 403) \<noteq> Some 401 \<and>
   updateVideoTitle (Suc 2) (demo_world (lit ''Demo'') (\<lambda>n. PutErr (http_error 403))) (lit ''vidA'')
     (lit ''New'') constructor = Some (after_rejected, Inl (http_error 403)) \<and>
   \<not> (\<exists>n. videos_put (demo_world (lit ''Demo'') (\<lambda>n. PutErr (http_error 401))) n \<noteq>
          PutErr (http_error 401)) \<and>
   updateVideoTitle 2 (demo_world (lit ''Demo'') (\<lambda>n. PutErr (http_error 401))) (lit ''vidA'')
     (lit ''New'') constructor = None"
proof -
  let ?u = "demo_world (lit ''Demo'') (\<lambda>n. PutErr (http_error 401))"
  note forever = updateVideoTitle_auth_retry [of ?u constructor "lit ''vidA''" "lit ''New''" 2]
  have always: "\<not> (\<exists>n. videos_put ?u n \<noteq> PutErr (http_error 401))"
    by (simp add: demo_world_def)
  have "(\<forall>n. \<exists>access_token expires_in. token_endpoint ?u n = TokenOk access_token expires_in) \<and>
    (\<forall>n. \<exists>video rest snip.
       videos_get ?u n = GetOk (Some (video # rest)) \<and> item_snippet video = Some snip) \<and>
    (\<forall>n. \<exists>e. videos_put ?u n = PutErr e \<and> response_status e = Some 401)"
    by (simp add: demo_world_def demo_item_def http_error_def response_status_def)
  with forever have C: "updateVideoTitle 2 ?u (lit ''vidA'') (lit ''New'') constructor = None"
    by blast
  let ?w = "demo_world (lit ''Demo'') twice_401"
  let ?v = "demo_world (lit ''Demo'') (\<lambda>n. PutErr (http_error 403))"
  note retry = updateVideoTitle_auth_retry [of ?w constructor "lit ''vidA''" "lit ''New''" 2]
  note throw = updateVideoTitle_auth_retry [of ?v constructor "lit ''vidA''" "lit ''New''" 2]
  have att: "update_attempt ?w (lit ''vidA'') (lit ''New'') (with_token\<lparr>trace := [TokenPost]\<rparr>) =
      (after_rejected, Inl (http_error 401))"
    by (rule attempt_rejected_demo) (simp add: twice_401_def)
  have att': "update_attempt ?v (lit ''vidA'') (lit ''New'') (with_token\<lparr>trace := [TokenPost]\<rparr>) =
      (after_rejected, Inl (http_error 403))"
    by (rule attempt_rejected_demo) simp
  have st: "response_status (http_error 401) = Some 401"
    by (simp add: http_error_def response_status_def)
  have st': "response_status (http_error 403) \<noteq> Some 401"
    by (simp add: http_error_def response_status_def)
  have A: "\<exists>s3 r3. refreshAccessToken ?w after_rejected = (s3, r3) \<and>
      trace s3 = trace after_rejected @ [TokenPost] \<and>
      (case r3 of
         Inl e \<Rightarrow> updateVideoTitle (Suc 2) ?w (lit ''vidA'') (lit ''New'') constructor =
                  Some (s3, Inl e)
       | Inr _ \<Rightarrow> updateVideoTitle (Suc 2) ?w (lit ''vidA'') (lit ''New'') constructor =
                  updateVideoTitle 2 ?w (lit ''vidA'') (lit ''New'') s3)"
    using retry ensure_demo att st by blast
  have B: "updateVideoTitle (Suc 2) ?v (lit ''vidA'') (lit ''New'') constructor =
      Some (after_rejected, Inl (http_error 403))"
    using throw ensure_demo att' st' by blast
  show ?thesis
    by (intro conjI) (rule ensure_demo att st A att' st' B always C)+
qed

section \<open>Batch orchestrator: a platform that answers every write with 401\<close>






end
